theory Spec2Isabelle
  imports Complex_Main "HOL-Library.Sublist"
begin

section \<open>Errors raised by the pipeline\<close>

text \<open>
  The pipeline of \<^verbatim>\<open>main-pipeline.py\<close> raises three kinds of exception that matter
  here: the \<^verbatim>\<open>IndexError\<close> of a list access out of range inside the address UDF, the
  \<^verbatim>\<open>ValueError\<close>s the program raises itself (with their messages), and the errors
  the database driver raises from \<^verbatim>\<open>cur.execute\<close>.
\<close>

datatype py_error = IndexError | ValueError string | DatabaseError string

section \<open>Reviews enrichment (\<^verbatim>\<open>process_reviews\<close>)\<close>

text \<open>
  A column value of Spark is nullable: a value of type \<open>'a option\<close>, \<open>None\<close> being SQL
  \<^verbatim>\<open>NULL\<close>. Comparisons and \<^verbatim>\<open>|\<close> follow SQL's three-valued logic, and
  \<^verbatim>\<open>F.when(c, v)\<close> takes its branch only when \<open>c\<close> is true (neither false nor null).
\<close>

definition sql_lt :: "int option \<Rightarrow> int \<Rightarrow> bool option" where
  "sql_lt a b = map_option (\<lambda>x. x < b) a"

definition sql_ge :: "int option \<Rightarrow> int \<Rightarrow> bool option" where
  "sql_ge a b = map_option (\<lambda>x. x \<ge> b) a"

fun sql_or :: "bool option \<Rightarrow> bool option \<Rightarrow> bool option" where
  "sql_or (Some True) _ = Some True"
| "sql_or _ (Some True) = Some True"
| "sql_or (Some False) (Some False) = Some False"
| "sql_or _ _ = None"

text \<open>
  Ratings are modelled as exact rationals; Spark holds them as doubles, and the rounding
  of its one division in \<^verbatim>\<open>avg\<close> is outside this model. A review as
  \<^verbatim>\<open>spark.read.json\<close> delivers it (the parser and its \<^verbatim>\<open>DROPMALFORMED\<close> policy
  are Spark's, not the repository's):
\<close>

record review =
  rv_gPlusPlaceId :: "string option"
  rv_gPlusUserId :: "string option"
  rv_rating :: "rat option"
  rv_unixReviewTime :: "int option"
  rv_categories :: "string option list option"
  rv_reviewText :: "string option"
  rv_reviewerName :: "string option"

text \<open>The review as \<^verbatim>\<open>process_reviews\<close> writes it to \<^verbatim>\<open>prepped/reviews\<close>.\<close>

record prepped_review =
  gPlusPlaceId :: "string option"
  gPlusUserId :: "string option"
  rating :: "rat option"
  categories :: "string option list option"
  reviewText :: "string option"
  reviewTime :: "int option"
  weekday :: "string option"
  day_night :: "string option"
  userAvgRating :: "rat option"

text \<open>
  \<^verbatim>\<open>F.from_unixtime(...).cast(TimestampType())\<close> reads the epoch seconds as a wall-clock
  time of the session's time zone. The zone is configuration of the Spark session: the
  parameter \<open>tz\<close> gives its offset from UTC, in seconds, at an instant. \<open>reviewTime\<close> is
  the wall-clock reading in seconds, from which \<^verbatim>\<open>F.hour\<close> and the day name of
  \<^verbatim>\<open>F.date_format(_, "E")\<close> are taken (1 January 1970 was a Thursday).
\<close>

definition from_unixtime :: "(int \<Rightarrow> int) \<Rightarrow> int option \<Rightarrow> int option" where
  "from_unixtime tz u = map_option (\<lambda>t. t + tz t) u"

definition hour :: "int option \<Rightarrow> int option" where
  "hour ts = map_option (\<lambda>s. (s div 3600) mod 24) ts"

definition date_format_E :: "int option \<Rightarrow> string option" where
  "date_format_E ts =
     map_option (\<lambda>s. [''Thu'', ''Fri'', ''Sat'', ''Sun'', ''Mon'', ''Tue'', ''Wed'']
                        ! nat ((s div 86400) mod 7)) ts"

text \<open>
  The two \<^verbatim>\<open>F.when\<close> branches and the \<^verbatim>\<open>otherwise(None)\<close> of lines 115-119, with the
  conditions as the source writes them (the second is \<^verbatim>\<open>>= 8 | < 18\<close>).
\<close>

definition when_day_night :: "int option \<Rightarrow> string option" where
  "when_day_night h =
     (if sql_or (sql_lt h 8) (sql_ge h 18) = Some True then Some ''night''
      else if sql_or (sql_ge h 8) (sql_lt h 18) = Some True then Some ''day''
      else None)"

text \<open>
  \<^verbatim>\<open>F.avg("rating").over(Window.partitionBy("gPlusUserId"))\<close>: the rows of the frame
  are those with the same user id as the current row (null ids form one partition);
  \<^verbatim>\<open>avg\<close> skips null ratings and is null when none is left.
\<close>

definition partition_of :: "review list \<Rightarrow> string option \<Rightarrow> review list" where
  "partition_of rows uid = filter (\<lambda>r. rv_gPlusUserId r = uid) rows"

definition avg :: "rat option list \<Rightarrow> rat option" where
  "avg vs = (let xs = concat (map (\<lambda>v. case v of None \<Rightarrow> [] | Some x \<Rightarrow> [x]) vs)
             in if xs = [] then None else Some (sum_list xs / of_nat (length xs)))"

definition enrich_review :: "(int \<Rightarrow> int) \<Rightarrow> review list \<Rightarrow> review \<Rightarrow> prepped_review" where
  "enrich_review tz rows r =
     (let rt = from_unixtime tz (rv_unixReviewTime r) in
      \<lparr> gPlusPlaceId = rv_gPlusPlaceId r,
        gPlusUserId = rv_gPlusUserId r,
        rating = rv_rating r,
        categories = rv_categories r,
        reviewText = rv_reviewText r,
        reviewTime = rt,
        weekday = date_format_E rt,
        day_night = when_day_night (hour rt),
        userAvgRating = avg (map rv_rating (partition_of rows (rv_gPlusUserId r))) \<rparr>)"

definition process_reviews :: "(int \<Rightarrow> int) \<Rightarrow> review list \<Rightarrow> prepped_review list" where
  "process_reviews tz rows = map (enrich_review tz rows) rows"

text \<open>
  The user average in the words of the specification: the arithmetic mean of all rating
  values of the user in the reviews dataset (none when the user has no rating value).
\<close>

definition ratings_of :: "review list \<Rightarrow> string option \<Rightarrow> rat list" where
  "ratings_of rows uid =
     concat (map (\<lambda>r. if rv_gPlusUserId r = uid then (case rv_rating r of None \<Rightarrow> [] | Some x \<Rightarrow> [x]) else []) rows)"

definition mean_rating :: "review list \<Rightarrow> string option \<Rightarrow> rat option" where
  "mean_rating rows uid =
     (if ratings_of rows uid = [] then None
      else Some (sum_list (ratings_of rows uid) / of_nat (length (ratings_of rows uid))))"

section \<open>Text normalizer (\<^verbatim>\<open>to_spark_friendly_json\<close>)\<close>













text \<open>
  The normalizer in the words of its specification: one pass over the line, from left to
  right, that rewrites each marker where it stands and copies every other byte. Where
  several rules could apply the first of the list does (no two of the six markers start
  alike but the two quote markers, which differ in their second byte).
\<close>

definition rule_matches :: "string \<Rightarrow> string \<times> string \<Rightarrow> bool" where
  "rule_matches s = (\<lambda>(p, r). p \<noteq> [] \<and> prefix p s)"

function rewrite :: "(string \<times> string) list \<Rightarrow> string \<Rightarrow> string" where
  "rewrite rules [] = []"
| "rewrite rules (c # s) =
     (case find (rule_matches (c # s)) rules of
        Some (p, r) \<Rightarrow> r @ rewrite rules (drop (length p) (c # s))
      | None \<Rightarrow> c # rewrite rules s)"
  by pat_completeness auto
termination
  by (relation "measure (\<lambda>(rules, s). length s)")
     (auto simp: find_Some_iff rule_matches_def)


section \<open>Places enrichment (\<^verbatim>\<open>process_places\<close>)\<close>

text \<open>
  The address UDF runs in Python, on \<^verbatim>\<open>str\<close> values: sequences of code points. A
  \<open>char\<close> here is a code point below 256. On these, \<^verbatim>\<open>[A-Z]\<close> is the range 65-90,
  \<^verbatim>\<open>\d\<close> the ASCII digits, and \<^verbatim>\<open>\s\<close> the white space of Python 3's \<^verbatim>\<open>re\<close> for
  \<^verbatim>\<open>str\<close> patterns: tab, line feed, vertical tab, form feed, carriage return, the four
  separators 28-31, the space, NEL (133) and the no-break space (160).
\<close>

definition is_upper :: "char \<Rightarrow> bool" where
  "is_upper c = (65 \<le> (of_char c :: nat) \<and> (of_char c :: nat) \<le> 90)"

definition is_digit :: "char \<Rightarrow> bool" where
  "is_digit c = (48 \<le> (of_char c :: nat) \<and> (of_char c :: nat) \<le> 57)"

definition is_space :: "char \<Rightarrow> bool" where
  "is_space c = ((of_char c :: nat) \<in> {9, 10, 11, 12, 13, 28, 29, 30, 31, 32, 133, 160})"

text \<open>
  \<^verbatim>\<open>re.search("^[A-Z]{2}\s\d{5}", s)\<close> and \<^verbatim>\<open>match.group()\<close>: the pattern is anchored
  at the start and open at the end, so the match, when there is one, is the first eight
  characters.
\<close>

definition re_search :: "string \<Rightarrow> string option" where
  "re_search s =
     (case s of
        a # b # w # ds \<Rightarrow>
          if is_upper a \<and> is_upper b \<and> is_space w \<and> 5 \<le> length ds \<and> list_all is_digit (take 5 ds)
          then Some (take 8 s) else None
      | _ \<Rightarrow> None)"

text \<open>
  \<^verbatim>\<open>str.split(sep)\<close> of Python for a separator that is not empty (\<^verbatim>\<open>', '\<close> in the
  source): the pieces between the occurrences of \<open>sep\<close>, found from left to right; the
  result is never empty.
\<close>

function split :: "string \<Rightarrow> string \<Rightarrow> string list" where
  "split sep [] = [[]]"
| "split sep (c # s) =
     (if sep \<noteq> [] \<and> prefix sep (c # s) then [] # split sep (drop (length sep) (c # s))
      else (let segs = split sep s in (c # hd segs) # tl segs))"
  by pat_completeness auto
termination
  by (relation "measure (\<lambda>(sep, s). length s)") auto

text \<open>
  \<open>address[-1]\<close> raises \<^verbatim>\<open>IndexError\<close> on an empty list. The same index on the result
  of \<^verbatim>\<open>split\<close> cannot: that list has an element.
\<close>

definition extract_usa :: "string list \<Rightarrow> py_error + string option" where
  "extract_usa address =
     (if address = [] then Inl IndexError
      else Inr (re_search (last (split '', '' (last address)))))"

text \<open>
  \<^verbatim>\<open>F.split(col, ' ')\<close> of Spark splits at every space and keeps empty pieces;
  \<^verbatim>\<open>getItem(i)\<close> is null when the array is null or has no such index.
\<close>

fun split_space :: "string \<Rightarrow> string list" where
  "split_space [] = [[]]"
| "split_space (c # s) =
     (if c = CHR '' '' then [] # split_space s
      else (let segs = split_space s in (c # hd segs) # tl segs))"

definition getItem :: "'a list option \<Rightarrow> nat \<Rightarrow> 'a option" where
  "getItem arr i =
     (case arr of None \<Rightarrow> None | Some xs \<Rightarrow> if i < length xs then Some (xs ! i) else None)"

fun concat_ws :: "string \<Rightarrow> string list \<Rightarrow> string" where
  "concat_ws sep [] = []"
| "concat_ws sep [x] = x"
| "concat_ws sep (x # y # xs) = x @ sep @ concat_ws sep (y # xs)"

text \<open>
  A place as \<^verbatim>\<open>spark.read.json\<close> delivers it, without the four columns dropped at
  line 61, and the place as it is written to \<^verbatim>\<open>prepped/places\<close>.
\<close>

record place =
  pl_gPlusPlaceId :: "string option"
  pl_name :: "string option"
  pl_address :: "string list"
  pl_price :: "string option"

record prepped_place =
  place_gPlusPlaceId :: "string option"
  name :: "string option"
  address :: string
  price :: "nat option"
  state :: "string option"
  postcode :: "string option"
  country :: "string option"
  population :: "int option"

text \<open>Lines 75-84 for one row whose UDF value is \<open>state_and_zip_usa\<close>.\<close>

definition with_usa_columns :: "place \<Rightarrow> string option \<Rightarrow> prepped_place" where
  "with_usa_columns p state_and_zip_usa =
     (let parts = map_option split_space state_and_zip_usa;
          st = getItem parts 0;
          pc = getItem parts 1
      in \<lparr> place_gPlusPlaceId = pl_gPlusPlaceId p,
           name = pl_name p,
           address = concat_ws '','' (pl_address p),
           price = map_option length (pl_price p),
           state = st,
           postcode = pc,
           country = (if st = None then None else Some ''USA''),
           population = None \<rparr>)"

definition place_row :: "place \<Rightarrow> py_error + prepped_place" where
  "place_row p =
     (case extract_usa (pl_address p) of
        Inl e \<Rightarrow> Inl e
      | Inr m \<Rightarrow> Inr (with_usa_columns p m))"

text \<open>An exception in the UDF on any row fails the Spark job, and with it the run.\<close>

fun udf_rows :: "('a \<Rightarrow> py_error + 'b) \<Rightarrow> 'a list \<Rightarrow> py_error + 'b list" where
  "udf_rows f [] = Inr []"
| "udf_rows f (x # xs) =
     (case f x of
        Inl e \<Rightarrow> Inl e
      | Inr y \<Rightarrow> (case udf_rows f xs of Inl e \<Rightarrow> Inl e | Inr ys \<Rightarrow> Inr (y # ys)))"

text \<open>
  The population file: a row is a zip code and a census count. \<^verbatim>\<open>groupby(...).agg(sum)\<close>
  gives one row per zip code, its sum skipping nulls (null when every count is); the left
  join keeps every place, and a null never equals a key. The counts are whole numbers.
\<close>

definition sum_agg :: "int option list \<Rightarrow> int option" where
  "sum_agg vs = (let xs = concat (map (\<lambda>v. case v of None \<Rightarrow> [] | Some x \<Rightarrow> [x]) vs)
                 in if xs = [] then None else Some (sum_list xs))"

definition groupby_sum :: "(string option \<times> int option) list \<Rightarrow> (string option \<times> int option) list" where
  "groupby_sum rows =
     map (\<lambda>z. (z, sum_agg (map snd (filter (\<lambda>row. fst row = z) rows)))) (remdups (map fst rows))"

definition left_join_population ::
  "prepped_place list \<Rightarrow> (string option \<times> int option) list \<Rightarrow> prepped_place list" where
  "left_join_population places pop_df =
     concat (map (\<lambda>p.
        let ms = filter (\<lambda>row. fst row \<noteq> None \<and> fst row = postcode p) pop_df
        in if ms = [] then [p\<lparr>population := None\<rparr>]
           else map (\<lambda>row. p\<lparr>population := snd row\<rparr>) ms) places)"

definition process_places ::
  "(string option \<times> int option) list \<Rightarrow> place list \<Rightarrow> py_error + prepped_place list" where
  "process_places population_csv places_df =
     (case udf_rows place_row places_df of
        Inl e \<Rightarrow> Inl e
      | Inr rows \<Rightarrow> Inr (left_join_population rows (groupby_sum population_csv)))"

section \<open>Lake builder (\<^verbatim>\<open>create_data_lake\<close>)\<close>

text \<open>
  A row of the lake after \<^verbatim>\<open>F.explode\<close>: its category, and the review and the place
  it was joined from, whose fields are the row's other columns. A row of the flat
  projection written to \<^verbatim>\<open>temp_lake\<close> has the fifteen columns of lines 163-165.
\<close>

record lake_row =
  category :: "string option"
  of_review :: prepped_review
  of_place :: prepped_place

record staging_row =
  s_gPlusPlaceId :: "string option"
  s_category :: "string option"
  s_day_night :: "string option"
  s_gPlusUserId :: "string option"
  s_rating :: "rat option"
  s_reviewTime :: "int option"
  s_userAvgRating :: "rat option"
  s_weekday :: "string option"
  s_address :: string
  s_country :: "string option"
  s_name :: "string option"
  s_population :: "int option"
  s_postcode :: "string option"
  s_price :: "nat option"
  s_state :: "string option"

text \<open>
  \<^verbatim>\<open>reviews_df.join(places_df, "gPlusPlaceId", how="inner")\<close>: one row for every pair
  of a review and a place with equal keys; a null key equals nothing.
\<close>

definition inner_join :: "prepped_review list \<Rightarrow> prepped_place list \<Rightarrow> (prepped_review \<times> prepped_place) list" where
  "inner_join reviews_df places_df =
     concat (map (\<lambda>r. map (\<lambda>p. (r, p))
        (filter (\<lambda>p. gPlusPlaceId r \<noteq> None \<and> gPlusPlaceId r = place_gPlusPlaceId p) places_df))
        reviews_df)"

text \<open>\<^verbatim>\<open>F.explode\<close>: one row per element of the array, none for a null or empty array.\<close>

definition explode :: "(prepped_review \<times> prepped_place) list \<Rightarrow> lake_row list" where
  "explode lake =
     concat (map (\<lambda>(r, p).
        map (\<lambda>c. \<lparr> category = c, of_review = r, of_place = p \<rparr>)
          (case categories r of None \<Rightarrow> [] | Some cs \<Rightarrow> cs)) lake)"

text \<open>\<^verbatim>\<open>lake.select("category").distinct().count()\<close>; null is one of the values.\<close>

definition distinct_count :: "lake_row list \<Rightarrow> nat" where
  "distinct_count lake = length (remdups (map category lake))"

text \<open>
  \<^verbatim>\<open>F.count("gPlusPlaceId").over(Window.partitionBy("category"))\<close>: for a row, the
  number of rows of its category whose \<open>gPlusPlaceId\<close> is not null.
\<close>

definition num_reviews_for_cat :: "lake_row list \<Rightarrow> lake_row \<Rightarrow> nat" where
  "num_reviews_for_cat lake row =
     length (filter (\<lambda>row'. category row' = category row
                           \<and> gPlusPlaceId (of_review row') \<noteq> None) lake)"

definition filter_rare :: "lake_row list \<Rightarrow> lake_row list" where
  "filter_rare lake =
     map fst (filter (\<lambda>(row, n). n > 10) (map (\<lambda>row. (row, num_reviews_for_cat lake row)) lake))"

definition select_staging :: "lake_row \<Rightarrow> staging_row" where
  "select_staging row =
     \<lparr> s_gPlusPlaceId = gPlusPlaceId (of_review row),
       s_category = category row,
       s_day_night = day_night (of_review row),
       s_gPlusUserId = gPlusUserId (of_review row),
       s_rating = rating (of_review row),
       s_reviewTime = reviewTime (of_review row),
       s_userAvgRating = userAvgRating (of_review row),
       s_weekday = weekday (of_review row),
       s_address = address (of_place row),
       s_country = country (of_place row),
       s_name = name (of_place row),
       s_population = population (of_place row),
       s_postcode = postcode (of_place row),
       s_price = price (of_place row),
       s_state = state (of_place row) \<rparr>"

text \<open>The two filters of lines 136 and 138, and the join of line 140.\<close>

definition with_categories :: "prepped_review list \<Rightarrow> prepped_review list" where
  "with_categories reviews_df = filter (\<lambda>r. categories r \<noteq> None) reviews_df"

definition usa_places :: "prepped_place list \<Rightarrow> prepped_place list" where
  "usa_places places_df = filter (\<lambda>p. country p = Some ''USA'') places_df"

definition joined :: "prepped_review list \<Rightarrow> prepped_place list \<Rightarrow> (prepped_review \<times> prepped_place) list" where
  "joined reviews_df places_df = inner_join (with_categories reviews_df) (usa_places places_df)"

text \<open>
  The function, from the two prepped datasets it reads to the two datasets it writes
  (\<^verbatim>\<open>reviews_lake\<close> and \<^verbatim>\<open>temp_lake\<close>), which it then reads back and counts. The
  storage is taken to return what was written, with the columns of the records above
  (Spark's JSON writer leaves out a column that is null in every row; a dataset without
  a \<open>country\<close> or a \<open>categories\<close> column is outside this model).
\<close>

definition create_data_lake ::
  "prepped_review list \<Rightarrow> prepped_place list \<Rightarrow> py_error + lake_row list \<times> staging_row list" where
  "create_data_lake reviews_df places_df =
     (let reviews_count = length (with_categories reviews_df);
          lake_count = length (joined reviews_df places_df)
      in if lake_count > reviews_count then Inl (ValueError ''Join resulted in too many rows'')
      else
        let lake = explode (joined reviews_df places_df);
            pre_filter_count = distinct_count lake;
            lake' = filter_rare lake;
            post_filter_count = distinct_count lake'
        in if post_filter_count \<ge> pre_filter_count
           then Inl (ValueError ''Categories were incorrectly filtered'')
           else
             let reviews_lake = lake';
                 temp_lake = map select_staging lake';
                 count_reviews = length reviews_lake;
                 count_temp = length temp_lake
             in if count_reviews = 0 \<or> count_temp = 0
                then Inl (ValueError ''Data lakes were not populated'')
                else Inr (reviews_lake, temp_lake))"

section \<open>Warehouse sync\<close>

text \<open>
  The statements of \<^verbatim>\<open>sql_queries.py\<close>, each by its kind and its table: the program
  hands their text to the driver and never looks into it. \<open>Select_count t\<close> is
  \<^verbatim>\<open>SELECT COUNT(*) FROM public.t\<close>.
\<close>

datatype sql =
    Drop_table string
  | Create_table string
  | Copy_staging string string
  | Filter_staging string
  | Insert_into string
  | Select_count string

definition staging_table_drop :: sql where "staging_table_drop = Drop_table ''staging''"
definition users_table_drop :: sql where "users_table_drop = Drop_table ''users''"
definition places_table_drop :: sql where "places_table_drop = Drop_table ''places''"
definition population_table_drop :: sql where "population_table_drop = Drop_table ''population''"
definition reviews_table_drop :: sql where "reviews_table_drop = Drop_table ''reviews''"

definition staging_table_create :: sql where "staging_table_create = Create_table ''staging''"

definition staging_table_copy :: "string \<Rightarrow> string \<Rightarrow> sql" where
  "staging_table_copy source arn = Copy_staging source arn"

definition staging_table_filter :: "string \<Rightarrow> sql" where
  "staging_table_filter category_param = Filter_staging category_param"

definition users_table_create :: sql where "users_table_create = Create_table ''users''"
definition places_table_create :: sql where "places_table_create = Create_table ''places''"
definition population_table_create :: sql where "population_table_create = Create_table ''population''"
definition reviews_table_create :: sql where "reviews_table_create = Create_table ''reviews''"

definition users_table_insert :: sql where "users_table_insert = Insert_into ''users''"
definition places_table_insert :: sql where "places_table_insert = Insert_into ''places''"
definition population_table_insert :: sql where "population_table_insert = Insert_into ''population''"
definition reviews_table_insert :: sql where "reviews_table_insert = Insert_into ''reviews''"

definition sql_check_filled :: "string \<Rightarrow> sql" where
  "sql_check_filled table = Select_count table"

definition create_table_queries :: "sql list" where
  "create_table_queries =
     [users_table_create, places_table_create, population_table_create, reviews_table_create]"

definition drop_table_queries :: "sql list" where
  "drop_table_queries =
     [reviews_table_drop, users_table_drop, places_table_drop, population_table_drop]"

definition insert_table_queries :: "sql list" where
  "insert_table_queries =
     [users_table_insert, places_table_insert, population_table_insert, reviews_table_insert]"

text \<open>
  The database driver and the warehouse behind it are not part of the repository. A
  driver over connection states \<open>'db\<close> says, for \<^verbatim>\<open>cur.execute\<close> and \<^verbatim>\<open>conn.commit\<close>,
  whether the call raises (\<open>Some\<close> of the exception's message) and the state it leaves,
  and for \<^verbatim>\<open>cur.fetchall\<close> the rows of the last result.
\<close>

record 'db driver =
  execute :: "'db \<Rightarrow> sql \<Rightarrow> string option \<times> 'db"
  commit :: "'db \<Rightarrow> string option \<times> 'db"
  fetchall :: "'db \<Rightarrow> int list list"

text \<open>
  The state of a run: the connection, the statements handed to \<^verbatim>\<open>cur.execute\<close> so far
  (oldest first), and the lines printed.
\<close>

record 'db session =
  db :: 'db
  executed :: "sql list"
  printed :: "string list"

definition print :: "string \<Rightarrow> 'db session \<Rightarrow> 'db session" where
  "print line s = s\<lparr>printed := printed s @ [line]\<rparr>"

text \<open>
  \<^verbatim>\<open>try: cur.execute(q); conn.commit()  except Exception as err: print(err)\<close>
\<close>

definition try_execute :: "'db driver \<Rightarrow> sql \<Rightarrow> 'db session \<Rightarrow> 'db session" where
  "try_execute drv q s =
     (case execute drv (db s) q of
        (Some err, d) \<Rightarrow> print err (s\<lparr>db := d, executed := executed s @ [q]\<rparr>)
      | (None, d) \<Rightarrow>
          (case commit drv d of
             (Some err, d') \<Rightarrow> print err (s\<lparr>db := d', executed := executed s @ [q]\<rparr>)
           | (None, d') \<Rightarrow> s\<lparr>db := d', executed := executed s @ [q]\<rparr>))"

definition load_staging_table :: "'db driver \<Rightarrow> string \<Rightarrow> string \<Rightarrow> string \<Rightarrow> 'db session \<Rightarrow> 'db session" where
  "load_staging_table drv s3_bucket category_param arn s0 =
     (let s1 = try_execute drv staging_table_drop (print ''Dropping staging table'' s0);
          s2 = try_execute drv staging_table_create (print ''Creating staging table'' s1);
          s3 = try_execute drv (staging_table_copy (s3_bucket @ ''/temp_lake'') arn)
                 (print (''Copying staging table from S3 location: '' @ s3_bucket @ ''/temp_lake'') s2)
      in try_execute drv (staging_table_filter category_param)
           (print ''Filtering irrelevant categories from staging table'' s3))"

text \<open>A loop \<^verbatim>\<open>for query in queries: try: ... except ...\<close>.\<close>

fun for_queries :: "'db driver \<Rightarrow> sql list \<Rightarrow> 'db session \<Rightarrow> 'db session" where
  "for_queries drv [] s = s"
| "for_queries drv (query # queries) s = for_queries drv queries (try_execute drv query s)"

definition load_final_tables :: "'db driver \<Rightarrow> 'db session \<Rightarrow> 'db session" where
  "load_final_tables drv s =
     for_queries drv insert_table_queries
       (for_queries drv create_table_queries
         (for_queries drv drop_table_queries s))"

text \<open>
  The four statements of \<^verbatim>\<open>load_staging_table\<close> in their order, and what the body of
  one \<^verbatim>\<open>try\<close> raises for a statement at a connection state: the exception of
  \<^verbatim>\<open>cur.execute\<close>, or else that of \<^verbatim>\<open>conn.commit\<close>.
\<close>

definition staging_queries :: "string \<Rightarrow> string \<Rightarrow> string \<Rightarrow> sql list" where
  "staging_queries s3_bucket category_param arn =
     [staging_table_drop, staging_table_create,
      staging_table_copy (s3_bucket @ ''/temp_lake'') arn, staging_table_filter category_param]"

definition raised :: "'db driver \<Rightarrow> sql \<Rightarrow> 'db \<Rightarrow> string option" where
  "raised drv q d =
     (case execute drv d q of (Some err, d') \<Rightarrow> Some err | (None, d') \<Rightarrow> fst (commit drv d'))"

text \<open>
  \<^verbatim>\<open>check_data_quality\<close>: here \<^verbatim>\<open>cur.execute\<close> stands outside any \<^verbatim>\<open>try\<close>, so what
  it raises ends the run.
\<close>

fun check_data_quality :: "'db driver \<Rightarrow> string list \<Rightarrow> 'db session \<Rightarrow> py_error + 'db session" where
  "check_data_quality drv [] s = Inr s"
| "check_data_quality drv (table # tables) s =
     (case execute drv (db s) (sql_check_filled table) of
        (Some err, d) \<Rightarrow> Inl (DatabaseError err)
      | (None, d) \<Rightarrow>
          (let rows = fetchall drv d in
           if length rows = 0
           then Inl (ValueError (''Data quality check failed. Table '' @ table @ '' is empty''))
           else check_data_quality drv tables
                  (print (''Data quality check passed, '' @ table @ '' is filled'')
                     (s\<lparr>db := d, executed := executed s @ [sql_check_filled table]\<rparr>))))"

definition tables :: "string list" where
  "tables = [''reviews'', ''places'', ''population'', ''users'']"

text \<open>
  A warehouse to run the fill check on: its tables with their numbers of rows, and the
  rows of the last result. \<^verbatim>\<open>SELECT COUNT(*)\<close> on a table that exists answers one row,
  which holds the count; on a table that does not exist the statement fails. The other
  statements are not interpreted.
\<close>

record warehouse =
  row_counts :: "(string \<times> nat) list"
  result :: "int list list"

definition warehouse_driver :: "warehouse driver" where
  "warehouse_driver =
     \<lparr> execute = (\<lambda>w q.
         case q of
           Select_count t \<Rightarrow>
             (case map_of (row_counts w) t of
                None \<Rightarrow> (Some (''relation '' @ t @ '' does not exist''), w\<lparr>result := []\<rparr>)
              | Some n \<Rightarrow> (None, w\<lparr>result := [[int n]]\<rparr>))
         | _ \<Rightarrow> (None, w)),
       commit = (\<lambda>w. (None, w)),
       fetchall = result \<rparr>"

section \<open>Auxiliary notions for the proofs\<close>



text \<open>
  Two runs agree on the connection when they have the same connection state and the same
  statements executed, the second having printed at least what the first has.
\<close>

definition same_conn :: "'db session \<Rightarrow> 'db session \<Rightarrow> bool" where
  "same_conn s t = (db s = db t \<and> executed s = executed t \<and> set (printed s) \<subseteq> set (printed t))"

section \<open>Sample data\<close>

text \<open>The place and the review of the end-to-end example (09:00 UTC on 1 January 1970).\<close>

definition place_p1 :: place where
  "place_p1 = \<lparr> pl_gPlusPlaceId = Some ''p1'', pl_name = Some ''Cafe One'',
                pl_address = [''123 Main St'', ''Los Angeles, CA 90210''],
                pl_price = Some ''$$'' \<rparr>"

definition review_u1 :: review where
  "review_u1 = \<lparr> rv_gPlusPlaceId = Some ''p1'', rv_gPlusUserId = Some ''u1'',
                 rv_rating = Some 4, rv_unixReviewTime = Some 32400,
                 rv_categories = Some [Some ''Cafe''], rv_reviewText = None,
                 rv_reviewerName = None \<rparr>"

definition utc :: "int \<Rightarrow> int" where
  "utc t = 0"

text \<open>
  The place of the example as the places step writes it, and reviews to build lakes
  from: one of user \<open>u1\<close> without categories, one of \<open>u2\<close> in two categories, one of
  \<open>u3\<close> at a place that is not in the places dataset. \<open>sample_reviews\<close> gives a lake
  with twelve rows of one category and one row of another; \<open>dup_places\<close> holds the key
  \<open>p1\<close> twice.
\<close>

definition prepped_p1 :: prepped_place where
  "prepped_p1 = \<lparr> place_gPlusPlaceId = Some ''p1'', name = Some ''Cafe One'',
                  address = ''123 Main St,Los Angeles, CA 90210'', price = Some 2,
                  state = Some ''CA'', postcode = Some ''90210'',
                  country = Some ''USA'', population = None \<rparr>"

definition review_u1_nocat :: review where
  "review_u1_nocat = \<lparr> rv_gPlusPlaceId = Some ''p1'', rv_gPlusUserId = Some ''u1'',
                 rv_rating = Some 1, rv_unixReviewTime = Some 72000,
                 rv_categories = None, rv_reviewText = None,
                 rv_reviewerName = None \<rparr>"

definition review_u2 :: review where
  "review_u2 = \<lparr> rv_gPlusPlaceId = Some ''p1'', rv_gPlusUserId = Some ''u2'',
                 rv_rating = Some 5, rv_unixReviewTime = Some 32400,
                 rv_categories = Some [Some ''Cafe'', Some ''Bar''], rv_reviewText = None,
                 rv_reviewerName = None \<rparr>"

definition review_u3 :: review where
  "review_u3 = \<lparr> rv_gPlusPlaceId = Some ''p9'', rv_gPlusUserId = Some ''u3'',
                 rv_rating = Some 3, rv_unixReviewTime = Some 32400,
                 rv_categories = Some [Some ''Cafe''], rv_reviewText = None,
                 rv_reviewerName = None \<rparr>"

definition sample_reviews :: "review list" where
  "sample_reviews = replicate 11 review_u1 @ [review_u1_nocat, review_u2]"

definition dup_places :: "prepped_place list" where
  "dup_places = [prepped_p1, prepped_p1]"

definition dup_reviews :: "prepped_review list" where
  "dup_reviews = process_reviews utc (replicate 5 review_u1 @ [review_u2] @ replicate 6 review_u3)"

definition sample_run :: "py_error + lake_row list \<times> staging_row list" where
  "sample_run = create_data_lake (process_reviews utc sample_reviews) [prepped_p1]"

text \<open>
  Three more places: one whose last address line has a tab between the state and the zip
  code, one outside the USA, and one whose address array is empty.
\<close>

definition place_tab :: place where
  "place_tab = \<lparr> pl_gPlusPlaceId = Some ''p2'', pl_name = Some ''Tab Diner'',
                 pl_address = [[CHR ''C'', CHR ''A'', CHR 0x09] @ ''90210''],
                 pl_price = None \<rparr>"

definition place_paris :: place where
  "place_paris = \<lparr> pl_gPlusPlaceId = Some ''p3'', pl_name = Some ''Bistro'',
                   pl_address = [''1 Rue de Rivoli'', ''75001 Paris, France''],
                   pl_price = Some ''$$$'' \<rparr>"

definition place_no_address :: place where
  "place_no_address = \<lparr> pl_gPlusPlaceId = Some ''p4'', pl_name = None,
                        pl_address = [], pl_price = None \<rparr>"

text \<open>
  A driver that refuses every \<^verbatim>\<open>CREATE TABLE\<close>, a run that starts, and a warehouse
  whose four final tables exist and are empty.
\<close>

definition refusing_driver :: "unit driver" where
  "refusing_driver =
     \<lparr> execute = (\<lambda>d q. case q of
                     Create_table t \<Rightarrow> (Some (''relation '' @ t @ '' already exists''), d)
                   | _ \<Rightarrow> (None, d)),
       commit = (\<lambda>d. (None, d)),
       fetchall = (\<lambda>d. []) \<rparr>"

definition fresh :: "'db \<Rightarrow> 'db session" where
  "fresh d = \<lparr> db = d, executed = [], printed = [] \<rparr>"

definition empty_tables :: warehouse where
  "empty_tables = \<lparr> row_counts = [(''reviews'', 0), (''places'', 0), (''population'', 0), (''users'', 0)],
                    result = [] \<rparr>"

section \<open>Properties of the reviews enrichment\<close>

lemma when_day_night_Some:
  "when_day_night (Some h) = Some (if 8 \<le> h \<and> h < 18 then ''day'' else ''night'')"
  by (cases "h < 8"; cases "18 \<le> h") (simp_all add: when_day_night_def sql_lt_def sql_ge_def)

lemma hour_range: "hour (Some s) = Some h \<Longrightarrow> 0 \<le> h \<and> h < 24"
  by (auto simp: hour_def)

text \<open>
  Claim C2. Every review with a review time gets \<open>day_night = "day"\<close> when the local hour
  of that time is in \<open>[8, 18)\<close> and \<open>"night"\<close> otherwise; hours 7, 8, 17 and 18 give night,
  day, day and night; and no hour is mapped to an absent value.
\<close>

theorem day_night_by_local_hour:
  "i < length rows \<Longrightarrow> rv_unixReviewTime (rows ! i) = Some t \<Longrightarrow>
   h = ((t + tz t) div 3600) mod 24 \<Longrightarrow>
     hour (reviewTime (process_reviews tz rows ! i)) = Some h
     \<and> day_night (process_reviews tz rows ! i)
           = Some (if 8 \<le> h \<and> h < 18 then ''day'' else ''night'')
     \<and> when_day_night (Some 7) = Some ''night''
     \<and> when_day_night (Some 8) = Some ''day''
     \<and> when_day_night (Some 17) = Some ''day''
     \<and> when_day_night (Some 18) = Some ''night''
     \<and> when_day_night (Some k) \<noteq> None"
  by (simp add: process_reviews_def enrich_review_def from_unixtime_def hour_def
        when_day_night_Some Let_def)

theorem day_night_by_local_hour_witness:
  "(0::nat) < length [review_u1]
   \<and> rv_unixReviewTime ([review_u1] ! 0) = Some 32400
   \<and> hour (reviewTime (process_reviews utc [review_u1] ! 0)) = Some 9
   \<and> day_night (process_reviews utc [review_u1] ! 0) = Some ''day''"
  using day_night_by_local_hour [of 0 "[review_u1]" 32400 9 utc 0]
  by (simp add: review_u1_def utc_def)

section \<open>Properties of the text normalizer\<close>











lemma rewrite_unmarked:
  "\<forall>t. suffix t s \<longrightarrow> find (rule_matches t) rules = None \<Longrightarrow> rewrite rules s = s"
proof (induction s)
  case Nil
  show ?case by simp
next
  case (Cons c s)
  have "find (rule_matches (c # s)) rules = None"
    using Cons.prems by (simp add: suffix_order.refl)
  moreover have "rewrite rules s = s"
    using Cons.prems by (intro Cons.IH) (auto simp: suffix_Cons)
  ultimately show ?case by simp
qed
















section \<open>Properties of the places enrichment\<close>

lemma re_search_Some_iff:
  "re_search s = Some m \<longleftrightarrow>
     (\<exists>a b w ds rest. s = a # b # w # ds @ rest \<and> is_upper a \<and> is_upper b \<and> is_space w
        \<and> length ds = 5 \<and> list_all is_digit ds \<and> m = a # b # w # ds)"
proof
  assume "re_search s = Some m"
  then obtain a b w t where s: "s = a # b # w # t" and ok: "is_upper a" "is_upper b" "is_space w"
      "5 \<le> length t" "list_all is_digit (take 5 t)" and m: "m = take 8 s"
    by (auto simp: re_search_def split: list.splits if_splits)
  have "s = a # b # w # take 5 t @ drop 5 t" using s by simp
  moreover have "length (take 5 t) = 5" using ok by simp
  moreover have "m = a # b # w # take 5 t" using m s by simp
  ultimately show "\<exists>a b w ds rest. s = a # b # w # ds @ rest \<and> is_upper a \<and> is_upper b \<and> is_space w
        \<and> length ds = 5 \<and> list_all is_digit ds \<and> m = a # b # w # ds"
    using ok by blast
next
  assume "\<exists>a b w ds rest. s = a # b # w # ds @ rest \<and> is_upper a \<and> is_upper b \<and> is_space w
        \<and> length ds = 5 \<and> list_all is_digit ds \<and> m = a # b # w # ds"
  then show "re_search s = Some m"
    by (auto simp: re_search_def)
qed

lemma not_space_upper: "is_upper c \<Longrightarrow> c \<noteq> CHR '' ''"
  by (auto simp: is_upper_def)

lemma not_space_digit: "is_digit c \<Longrightarrow> c \<noteq> CHR '' ''"
  by (auto simp: is_digit_def)

lemma split_space_none: "CHR '' '' \<notin> set xs \<Longrightarrow> split_space xs = [xs]"
  by (induction xs) auto

lemma split_space_at:
  "CHR '' '' \<notin> set xs \<Longrightarrow> split_space (xs @ CHR '' '' # ys) = xs # split_space ys"
  by (induction xs) auto

lemma usa_columns_of_match:
  assumes "length st = 2" "list_all is_upper st" "list_all is_digit pc"
  shows "state (with_usa_columns p (Some (st @ CHR '' '' # pc))) = Some st
       \<and> postcode (with_usa_columns p (Some (st @ CHR '' '' # pc))) = Some pc
       \<and> country (with_usa_columns p (Some (st @ CHR '' '' # pc))) = Some ''USA''"
proof -
  have "CHR '' '' \<notin> set st" using assms(2) not_space_upper by (auto simp: list_all_iff)
  moreover have "CHR '' '' \<notin> set pc" using assms(3) not_space_digit by (auto simp: list_all_iff)
  ultimately have "split_space (st @ CHR '' '' # pc) = [st, pc]"
    by (simp add: split_space_at split_space_none)
  then show ?thesis
    by (simp add: with_usa_columns_def getItem_def)
qed

lemma usa_columns_of_no_match:
  "state (with_usa_columns p None) = None \<and> postcode (with_usa_columns p None) = None
   \<and> country (with_usa_columns p None) = None"
  by (simp add: with_usa_columns_def getItem_def)

lemma place_row_nonempty:
  "pl_address p \<noteq> [] \<Longrightarrow>
   place_row p = Inr (with_usa_columns p (re_search (last (split '', '' (last (pl_address p))))))"
  by (simp add: place_row_def extract_usa_def)

lemma place_row_error: "place_row p = Inl e \<Longrightarrow> e = IndexError \<and> pl_address p = []"
  by (cases "pl_address p = []") (simp_all add: place_row_def extract_usa_def)

lemma udf_rows_error:
  "x \<in> set xs \<Longrightarrow> f x = Inl e \<Longrightarrow> \<forall>y e'. f y = Inl e' \<longrightarrow> e' = e \<Longrightarrow> udf_rows f xs = Inl e"
proof (induction xs)
  case Nil
  from Nil(1) show ?case by simp
next
  case (Cons a xs)
  show ?case
  proof (cases "f a")
    case (Inl e')
    with Cons.prems(3) have "e' = e" by blast
    with Inl show ?thesis by simp
  next
    case (Inr y)
    with Cons.prems(1,2) have "x \<in> set xs" by auto
    from Cons.IH[OF this Cons.prems(2,3)] Inr show ?thesis by simp
  qed
qed

text \<open>
  Claim C7, amended. For every address that is not empty: when the last \<open>", "\<close>-separated
  segment of its last element starts with two uppercase letters, one space and five
  digits, the row gets that state and that postcode, and the country \<open>"USA"\<close>; when it
  does not start with two uppercase letters, one white-space character and five digits,
  the state, the postcode and the country are absent.
\<close>

theorem usa_columns_of_nonempty_address:
  "pl_address p \<noteq> [] \<Longrightarrow> seg = last (split '', '' (last (pl_address p))) \<Longrightarrow>
     (\<exists>row. place_row p = Inr row
        \<and> (\<forall>st pc rest.
              seg = st @ '' '' @ pc @ rest \<and> length st = 2 \<and> list_all is_upper st
              \<and> length pc = 5 \<and> list_all is_digit pc
              \<longrightarrow> state row = Some st \<and> postcode row = Some pc \<and> country row = Some ''USA'')
        \<and> ((\<nexists>a b w ds rest. seg = a # b # w # ds @ rest \<and> is_upper a \<and> is_upper b
                \<and> is_space w \<and> length ds = 5 \<and> list_all is_digit ds)
              \<longrightarrow> state row = None \<and> postcode row = None \<and> country row = None))"
proof -
  assume ne: "pl_address p \<noteq> []" and seg: "seg = last (split '', '' (last (pl_address p)))"
  let ?row = "with_usa_columns p (re_search seg)"
  have row: "place_row p = Inr ?row"
    using place_row_nonempty[OF ne] seg by simp
  have match: "state ?row = Some st \<and> postcode ?row = Some pc \<and> country ?row = Some ''USA''"
    if "seg = st @ '' '' @ pc @ rest" "length st = 2" "list_all is_upper st"
       "length pc = 5" "list_all is_digit pc" for st pc rest
  proof -
    from that(2) obtain a b where st: "st = [a, b]"
      by (cases st; cases "tl st") auto
    have "is_space (CHR '' '')" by (simp add: is_space_def)
    then have "re_search seg = Some (st @ CHR '' '' # pc)"
      using that st by (subst re_search_Some_iff) auto
    then show ?thesis
      using usa_columns_of_match[OF that(2,3,5), of p] by simp
  qed
  have nomatch: "state ?row = None \<and> postcode ?row = None \<and> country ?row = None"
    if "\<nexists>a b w ds rest. seg = a # b # w # ds @ rest \<and> is_upper a \<and> is_upper b
                \<and> is_space w \<and> length ds = 5 \<and> list_all is_digit ds"
  proof -
    have "re_search seg = None"
    proof (cases "re_search seg")
      case None
      then show ?thesis .
    next
      case (Some m)
      then show ?thesis using that re_search_Some_iff[of seg m] by blast
    qed
    then show ?thesis using usa_columns_of_no_match[of p] by simp
  qed
  show ?thesis
    using row match nomatch by blast
qed

theorem usa_columns_of_nonempty_address_witness:
  "pl_address place_p1 \<noteq> []
   \<and> last (split '', '' (last (pl_address place_p1))) = ''CA'' @ '' '' @ ''90210'' @ []
   \<and> (\<exists>row. place_row place_p1 = Inr row \<and> state row = Some ''CA''
          \<and> postcode row = Some ''90210'' \<and> country row = Some ''USA'')
   \<and> pl_address place_paris \<noteq> []
   \<and> last (split '', '' (last (pl_address place_paris))) = ''France''
   \<and> (\<exists>row. place_row place_paris = Inr row \<and> state row = None
          \<and> postcode row = None \<and> country row = None)"
proof -
  have p1: "pl_address place_p1 \<noteq> []"
    and s1: "last (split '', '' (last (pl_address place_p1))) = ''CA'' @ '' '' @ ''90210'' @ []"
    by (simp_all add: place_p1_def)
  have p3: "pl_address place_paris \<noteq> []"
    and s3: "last (split '', '' (last (pl_address place_paris))) = ''France''"
    by (simp_all add: place_paris_def)
  have no: "\<nexists>a b w ds rest. ''France'' = a # b # w # ds @ rest \<and> is_upper a \<and> is_upper b
              \<and> is_space w \<and> length ds = 5 \<and> list_all is_digit ds"
    by (auto simp: is_upper_def)
  have up: "length ''CA'' = 2 \<and> list_all is_upper ''CA''"
    and dg: "length ''90210'' = 5 \<and> list_all is_digit ''90210''"
    by (simp_all add: is_upper_def is_digit_def)
  from usa_columns_of_nonempty_address [OF p1 s1 [symmetric]] up dg
  have "\<exists>row. place_row place_p1 = Inr row \<and> state row = Some ''CA''
          \<and> postcode row = Some ''90210'' \<and> country row = Some ''USA''"
    by blast
  moreover from usa_columns_of_nonempty_address [OF p3 s3 [symmetric]] no
  have "\<exists>row. place_row place_paris = Inr row \<and> state row = None
          \<and> postcode row = None \<and> country row = None"
    by blast
  ultimately show ?thesis using p1 s1 p3 s3 by blast
qed

text \<open>
  The claim as first stated spoke of every address. On an empty address array the UDF
  raises, and no row with absent fields is produced.
\<close>

theorem empty_address_raises:
  "extract_usa (pl_address place_no_address) = Inl IndexError
   \<and> place_row place_no_address = Inl IndexError
   \<and> process_places [] [place_p1, place_no_address] = Inl IndexError"
  by (simp add: place_no_address_def place_p1_def process_places_def place_row_def
        extract_usa_def)

text \<open>
  Claim C10. The extraction is total only on addresses that are not empty: on an empty
  address array it raises \<open>IndexError\<close> (and the places step fails with it); on every
  other address it returns, and when the pattern does not match, the state, the postcode
  and the country of the row are absent.
\<close>

theorem extract_usa_total_on_nonempty:
  "extract_usa [] = Inl IndexError
   \<and> (addr \<noteq> [] \<longrightarrow> extract_usa addr = Inr (re_search (last (split '', '' (last addr)))))
   \<and> (pl_address p = [] \<longrightarrow> place_row p = Inl IndexError)
   \<and> (p \<in> set places_df \<and> pl_address p = []
        \<longrightarrow> process_places population_csv places_df = Inl IndexError)
   \<and> (pl_address p \<noteq> [] \<and> re_search (last (split '', '' (last (pl_address p)))) = None
        \<longrightarrow> (\<exists>row. place_row p = Inr row \<and> state row = None \<and> postcode row = None
                \<and> country row = None))"
proof -
  have 1: "extract_usa [] = Inl IndexError"
    by (simp add: extract_usa_def)
  have 2: "extract_usa addr = Inr (re_search (last (split '', '' (last addr))))" if "addr \<noteq> []"
    using that by (simp add: extract_usa_def)
  have 3: "place_row p = Inl IndexError" if "pl_address p = []"
    using that by (simp add: place_row_def extract_usa_def)
  have 4: "process_places population_csv places_df = Inl IndexError"
    if "p \<in> set places_df" "pl_address p = []"
  proof -
    have "\<forall>y e'. place_row y = Inl e' \<longrightarrow> e' = IndexError"
      using place_row_error by blast
    from udf_rows_error[OF that(1) 3[OF that(2)] this]
    show ?thesis by (simp add: process_places_def)
  qed
  have 5: "\<exists>row. place_row p = Inr row \<and> state row = None \<and> postcode row = None
                \<and> country row = None"
    if "pl_address p \<noteq> []" "re_search (last (split '', '' (last (pl_address p)))) = None"
    using place_row_nonempty[OF that(1)] that(2) usa_columns_of_no_match[of p] by simp
  show ?thesis
    using 1 2 3 4 5 by blast
qed

theorem extract_usa_total_on_nonempty_witness:
  "extract_usa [] = Inl IndexError
   \<and> extract_usa [''75001 Paris, France''] = Inr None
   \<and> place_row place_no_address = Inl IndexError
   \<and> process_places [] [place_no_address] = Inl IndexError
   \<and> (\<exists>row. place_row place_paris = Inr row \<and> state row = None \<and> postcode row = None
          \<and> country row = None)"
proof -
  have a: "pl_address place_no_address = []" "place_no_address \<in> set [place_no_address]"
    by (simp_all add: place_no_address_def)
  have b: "pl_address place_paris \<noteq> []"
      "re_search (last (split '', '' (last (pl_address place_paris)))) = None"
    by (simp_all add: place_paris_def re_search_def is_upper_def)
  have c: "[''75001 Paris, France''] \<noteq> []"
      "re_search (last (split '', '' (last [''75001 Paris, France'']))) = None"
    by (simp_all add: re_search_def is_upper_def)
  from extract_usa_total_on_nonempty [of "[''75001 Paris, France'']" place_no_address
      "[place_no_address]" "[]"] a c
  have "extract_usa [] = Inl IndexError"
    "extract_usa [''75001 Paris, France''] = Inr None"
    "place_row place_no_address = Inl IndexError"
    "process_places [] [place_no_address] = Inl IndexError"
    by simp_all
  moreover from extract_usa_total_on_nonempty [of "[]" place_paris "[]" "[]"] b
  have "\<exists>row. place_row place_paris = Inr row \<and> state row = None \<and> postcode row = None
          \<and> country row = None"
    by blast
  ultimately show ?thesis by blast
qed

lemma udf_rows_Inr:
  "udf_rows f xs = Inr ys \<Longrightarrow> y \<in> set ys \<Longrightarrow> \<exists>x \<in> set xs. f x = Inr y"
proof (induction xs arbitrary: ys)
  case Nil
  then show ?case by simp
next
  case (Cons a xs)
  from Cons.prems(1) obtain b bs where fa: "f a = Inr b" and rest: "udf_rows f xs = Inr bs"
      and ys: "ys = b # bs"
    by (auto split: sum.splits)
  show ?case
  proof (cases "y = b")
    case True
    with fa show ?thesis by simp
  next
    case False
    with Cons.prems(2) ys have "y \<in> set bs" by simp
    from Cons.IH[OF rest this] show ?thesis by auto
  qed
qed

lemma left_join_population_fields:
  "row \<in> set (left_join_population rows pop_df) \<Longrightarrow>
     \<exists>r \<in> set rows. state row = state r \<and> postcode row = postcode r \<and> country row = country r"
  by (auto simp: left_join_population_def Let_def split: if_splits)

text \<open>
  What the code does guarantee of every place it writes: the country is \<open>"USA"\<close> exactly
  when the state column is set. Nothing ties the country to the postcode.
\<close>

lemma country_iff_state:
  assumes "process_places population_csv places_df = Inr rows" and "row \<in> set rows"
  shows "country row = Some ''USA'' \<longleftrightarrow> state row \<noteq> None"
proof -
  from assms(1) obtain rs where rs: "udf_rows place_row places_df = Inr rs"
      and rows: "rows = left_join_population rs (groupby_sum population_csv)"
    by (auto simp: process_places_def split: sum.splits)
  from left_join_population_fields assms(2) rows
  obtain r where r: "r \<in> set rs" "state row = state r" "country row = country r"
    by blast
  from udf_rows_Inr[OF rs r(1)] obtain p where "place_row p = Inr r" by blast
  then obtain m where "r = with_usa_columns p m"
    by (auto simp: place_row_def split: sum.splits)
  then have "country r = Some ''USA'' \<longleftrightarrow> state r \<noteq> None"
    by (simp add: with_usa_columns_def Let_def)
  with r show ?thesis by simp
qed

text \<open>
  Claim C3, at a place whose last address line is \<open>CA\<close>, a tab, \<open>90210\<close>: \<^verbatim>\<open>\s\<close> of the
  pattern accepts the tab, the split at \<^verbatim>\<open>' '\<close> finds no space, and the place is
  written with country \<open>"USA"\<close>, the whole match as its state, and no postcode.
\<close>

theorem usa_country_without_postcode:
  "process_places [] [place_tab]
     = Inr [\<lparr> place_gPlusPlaceId = Some ''p2'', name = Some ''Tab Diner'',
              address = [CHR ''C'', CHR ''A'', CHR 0x09] @ ''90210'', price = None,
              state = Some ([CHR ''C'', CHR ''A'', CHR 0x09] @ ''90210''),
              postcode = None, country = Some ''USA'', population = None \<rparr>]"
  by (simp add: process_places_def place_tab_def place_row_def extract_usa_def re_search_def
        is_upper_def is_space_def is_digit_def with_usa_columns_def getItem_def
        left_join_population_def groupby_sum_def)

section \<open>Properties of the lake builder\<close>

lemma length_inner_join:
  "length (inner_join rs ps)
     = sum_list (map (\<lambda>r. length (filter (\<lambda>p. gPlusPlaceId r \<noteq> None
                                  \<and> gPlusPlaceId r = place_gPlusPlaceId p) ps)) rs)"
  by (simp add: inner_join_def length_concat comp_def)

lemma sum_list_grows:
  "\<forall>x \<in> set xs. 1 \<le> f x \<Longrightarrow> \<exists>x \<in> set xs. 2 \<le> f x \<Longrightarrow> length xs < sum_list (map f xs)"
proof (induction xs)
  case Nil
  then show ?case by simp
next
  case (Cons a xs)
  have ge: "length xs \<le> sum_list (map f xs)"
    using Cons.prems(1) by (induction xs) (auto simp: Suc_le_eq add_strict_increasing2 less_Suc_eq_le)
  show ?case
  proof (cases "2 \<le> f a")
    case True
    with ge show ?thesis by simp
  next
    case False
    with Cons.prems have "\<exists>x \<in> set xs. 2 \<le> f x" "1 \<le> f a" by auto
    with Cons show ?thesis by simp
  qed
qed

lemma create_data_lake_join_error:
  "create_data_lake reviews_df places_df = Inl (ValueError ''Join resulted in too many rows'')
     \<longleftrightarrow> length (with_categories reviews_df) < length (joined reviews_df places_df)"
  by (simp add: create_data_lake_def Let_def)

text \<open>
  Claim C4, amended. \<open>create_data_lake\<close> raises "Join resulted in too many rows" exactly
  when the inner join of the category-filtered reviews with the USA places, counted
  before the categories are exploded, has more rows than the filtered reviews. In
  particular it does when every filtered review has a key found among the USA places and
  some review's key is found there twice.
\<close>

theorem join_check:
  "(create_data_lake reviews_df places_df = Inl (ValueError ''Join resulted in too many rows'')
      \<longleftrightarrow> length (with_categories reviews_df) < length (joined reviews_df places_df))
   \<and> ((\<forall>r \<in> set (with_categories reviews_df).
          gPlusPlaceId r \<noteq> None
          \<and> (\<exists>p \<in> set (usa_places places_df). place_gPlusPlaceId p = gPlusPlaceId r))
       \<and> (\<exists>r \<in> set (with_categories reviews_df).
            2 \<le> length (filter (\<lambda>p. place_gPlusPlaceId p = gPlusPlaceId r) (usa_places places_df)))
       \<longrightarrow> create_data_lake reviews_df places_df = Inl (ValueError ''Join resulted in too many rows''))"
proof -
  let ?rs = "with_categories reviews_df" and ?ps = "usa_places places_df"
  let ?f = "\<lambda>r. length (filter (\<lambda>p. gPlusPlaceId r \<noteq> None
                                  \<and> gPlusPlaceId r = place_gPlusPlaceId p) ?ps)"
  have grows: "length ?rs < length (joined reviews_df places_df)"
    if all: "\<forall>r \<in> set ?rs. gPlusPlaceId r \<noteq> None
               \<and> (\<exists>p \<in> set ?ps. place_gPlusPlaceId p = gPlusPlaceId r)"
    and dup: "\<exists>r \<in> set ?rs. 2 \<le> length (filter (\<lambda>p. place_gPlusPlaceId p = gPlusPlaceId r) ?ps)"
  proof -
    have f: "?f r = length (filter (\<lambda>p. place_gPlusPlaceId p = gPlusPlaceId r) ?ps)"
      if "r \<in> set ?rs" for r
      using all that by (auto intro!: arg_cong[where f = length] filter_cong)
    have "\<forall>r \<in> set ?rs. 1 \<le> ?f r"
    proof
      fix r assume r: "r \<in> set ?rs"
      with all obtain p where "p \<in> set ?ps" "place_gPlusPlaceId p = gPlusPlaceId r" by blast
      then have "filter (\<lambda>p. place_gPlusPlaceId p = gPlusPlaceId r) ?ps \<noteq> []"
        by (auto simp: filter_empty_conv)
      then show "1 \<le> ?f r" unfolding f[OF r] by (simp add: Suc_le_eq)
    qed
    moreover have "\<exists>r \<in> set ?rs. 2 \<le> ?f r"
      using dup f by auto
    ultimately have "length ?rs < sum_list (map ?f ?rs)"
      by (rule sum_list_grows)
    then show ?thesis by (simp add: joined_def length_inner_join)
  qed
  show ?thesis
    using grows create_data_lake_join_error[of reviews_df places_df] by blast
qed

theorem join_check_witness:
  "create_data_lake (process_reviews utc [review_u1, review_u2]) dup_places
     = Inl (ValueError ''Join resulted in too many rows'')
   \<and> length (with_categories (process_reviews utc [review_u1, review_u2])) = 2
   \<and> length (joined (process_reviews utc [review_u1, review_u2]) dup_places) = 4"
proof -
  let ?R = "process_reviews utc [review_u1, review_u2]"
  have l: "length (with_categories ?R) = 2" "length (joined ?R dup_places) = 4"
    by code_simp+
  have all: "\<forall>r \<in> set (with_categories ?R). gPlusPlaceId r \<noteq> None
          \<and> (\<exists>p \<in> set (usa_places dup_places). place_gPlusPlaceId p = gPlusPlaceId r)"
    by (simp add: with_categories_def usa_places_def process_reviews_def enrich_review_def
          review_u1_def review_u2_def dup_places_def prepped_p1_def Let_def)
  have dup: "\<exists>r \<in> set (with_categories ?R).
            2 \<le> length (filter (\<lambda>p. place_gPlusPlaceId p = gPlusPlaceId r) (usa_places dup_places))"
    by (simp add: with_categories_def usa_places_def process_reviews_def enrich_review_def
          review_u1_def review_u2_def dup_places_def prepped_p1_def Let_def)
  from join_check [of ?R dup_places] all dup l show ?thesis by blast
qed

text \<open>
  Without the condition on the other reviews the duplication goes unnoticed: here the key
  \<open>p1\<close> is twice among the places and six reviews refer to it, six other reviews find no
  place, the join has as many rows as there are reviews, and the lake is written with
  every review of \<open>p1\<close> in it twice.
\<close>

theorem duplicated_key_passes_join_check:
  "length (filter (\<lambda>p. place_gPlusPlaceId p = Some ''p1'') (usa_places dup_places)) = 2
   \<and> length (filter (\<lambda>r. gPlusPlaceId r = Some ''p1'') (with_categories dup_reviews)) = 6
   \<and> length (joined dup_reviews dup_places) = 12
   \<and> length (with_categories dup_reviews) = 12
   \<and> create_data_lake dup_reviews dup_places \<noteq> Inl (ValueError ''Join resulted in too many rows'')
   \<and> map_sum id (\<lambda>(l, t). (length l, length t)) (create_data_lake dup_reviews dup_places)
       = Inr (12, 12)"
  by (intro conjI; code_simp)


lemma filter_rare_eq:
  "filter_rare lake = filter (\<lambda>row. 10 < num_reviews_for_cat lake row) lake"
proof -
  have "map fst (filter (\<lambda>(row, n). n > 10) (map (\<lambda>row. (row, f row)) xs))
          = filter (\<lambda>row. 10 < f row) xs" for f :: "lake_row \<Rightarrow> nat" and xs
    by (induction xs) auto
  then show ?thesis by (simp add: filter_rare_def)
qed

lemma explode_review: "row \<in> set (explode lake) \<Longrightarrow> \<exists>p. (of_review row, p) \<in> set lake"
  by (auto simp: explode_def split: option.splits)

lemma joined_review:
  "(r, p) \<in> set (joined reviews_df places_df) \<Longrightarrow> r \<in> set reviews_df \<and> gPlusPlaceId r \<noteq> None"
  by (auto simp: joined_def inner_join_def with_categories_def)



lemma create_data_lake_Inr:
  "create_data_lake reviews_df places_df = Inr (reviews_lake, temp_lake) \<Longrightarrow>
     reviews_lake = filter_rare (explode (joined reviews_df places_df))
     \<and> temp_lake = map select_staging reviews_lake"
  by (auto simp: create_data_lake_def Let_def split: if_splits)





lemma avg_partition: "avg (map rv_rating (partition_of rows uid)) = mean_rating rows uid"
proof -
  have "concat (map (\<lambda>v. case v of None \<Rightarrow> [] | Some x \<Rightarrow> [x])
                  (map rv_rating (filter (\<lambda>r. rv_gPlusUserId r = uid) rows)))
          = ratings_of rows uid"
    by (induction rows) (simp_all add: ratings_of_def)
  then show ?thesis
    by (simp add: avg_def partition_of_def mean_rating_def Let_def)
qed

lemma enrich_review_avg:
  "userAvgRating (enrich_review tz rows r) = mean_rating rows (gPlusUserId (enrich_review tz rows r))"
  by (simp add: enrich_review_def Let_def avg_partition)

lemma lake_row_review:
  assumes "create_data_lake reviews_df places_df = Inr (reviews_lake, temp_lake)"
      and "row \<in> set reviews_lake"
  shows "of_review row \<in> set reviews_df"
proof -
  from create_data_lake_Inr[OF assms(1)] assms(2)
  have "row \<in> set (explode (joined reviews_df places_df))"
    by (simp add: filter_rare_eq)
  with explode_review joined_review show ?thesis by blast
qed

text \<open>
  Claim C6. \<open>userAvgRating\<close> of a review is the arithmetic mean of all rating values of
  its user in the whole reviews dataset; it is the same on every review of that user; and
  the rows of both lakes carry that value, computed before the join and the category
  filters, whichever of the user's reviews those dropped.
\<close>

theorem user_avg_rating:
  "(i < length rows \<longrightarrow>
      userAvgRating (process_reviews tz rows ! i) = mean_rating rows (rv_gPlusUserId (rows ! i)))
   \<and> (i < length rows \<and> j < length rows \<and> rv_gPlusUserId (rows ! i) = rv_gPlusUserId (rows ! j)
        \<longrightarrow> userAvgRating (process_reviews tz rows ! i) = userAvgRating (process_reviews tz rows ! j))
   \<and> (create_data_lake (process_reviews tz rows) places_df = Inr (reviews_lake, temp_lake)
        \<longrightarrow> (\<forall>row \<in> set reviews_lake.
               userAvgRating (of_review row) = mean_rating rows (gPlusUserId (of_review row)))
          \<and> (\<forall>s \<in> set temp_lake. s_userAvgRating s = mean_rating rows (s_gPlusUserId s)))"
proof -
  have at: "userAvgRating (process_reviews tz rows ! k) = mean_rating rows (rv_gPlusUserId (rows ! k))"
    if "k < length rows" for k
    using that by (simp add: process_reviews_def enrich_review_def Let_def avg_partition)
  have lake: "userAvgRating (of_review row) = mean_rating rows (gPlusUserId (of_review row))"
    if run: "create_data_lake (process_reviews tz rows) places_df = Inr (reviews_lake, temp_lake)"
    and row: "row \<in> set reviews_lake" for row
  proof -
    from lake_row_review[OF run row] obtain r where "of_review row = enrich_review tz rows r"
      by (auto simp: process_reviews_def)
    then show ?thesis by (simp add: enrich_review_avg)
  qed
  have temp: "s_userAvgRating s = mean_rating rows (s_gPlusUserId s)"
    if run: "create_data_lake (process_reviews tz rows) places_df = Inr (reviews_lake, temp_lake)"
    and s: "s \<in> set temp_lake" for s
  proof -
    from create_data_lake_Inr[OF run] s obtain row where "row \<in> set reviews_lake"
        "s = select_staging row"
      by auto
    with lake[OF run] show ?thesis by (simp add: select_staging_def)
  qed
  show ?thesis
    using at lake temp by auto
qed

lemma sample_run_Inr: "sample_run = Inr (fst (projr sample_run), snd (projr sample_run))"
  by code_simp

theorem user_avg_rating_witness:
  "(0::nat) < length sample_reviews \<and> (11::nat) < length sample_reviews
   \<and> rv_gPlusUserId (sample_reviews ! 0) = rv_gPlusUserId (sample_reviews ! 11)
   \<and> mean_rating sample_reviews (Some ''u1'') = Some (15 / 4)
   \<and> userAvgRating (process_reviews utc sample_reviews ! 0) = Some (15 / 4)
   \<and> userAvgRating (process_reviews utc sample_reviews ! 11) = Some (15 / 4)
   \<and> length (fst (projr sample_run)) = 12
   \<and> list_all (\<lambda>row. userAvgRating (of_review row)
                        = mean_rating sample_reviews (gPlusUserId (of_review row)))
        (fst (projr sample_run))
   \<and> list_all (\<lambda>s. s_userAvgRating s = mean_rating sample_reviews (s_gPlusUserId s))
        (snd (projr sample_run))"
proof -
  have facts: "(0::nat) < length sample_reviews" "(11::nat) < length sample_reviews"
      "rv_gPlusUserId (sample_reviews ! 0) = rv_gPlusUserId (sample_reviews ! 11)"
      "rv_gPlusUserId (sample_reviews ! 0) = Some ''u1''"
      "mean_rating sample_reviews (Some ''u1'') = Some (15 / 4)"
      "length (fst (projr sample_run)) = 12"
    by code_simp+
  note inst = user_avg_rating [of 0 sample_reviews utc 11 "[prepped_p1]"
      "fst (projr sample_run)" "snd (projr sample_run)"]
  have run: "create_data_lake (process_reviews utc sample_reviews) [prepped_p1]
               = Inr (fst (projr sample_run), snd (projr sample_run))"
    using sample_run_Inr by (simp add: sample_run_def)
  from inst facts(1)
  have "userAvgRating (process_reviews utc sample_reviews ! 0)
          = mean_rating sample_reviews (rv_gPlusUserId (sample_reviews ! 0))"
    by blast
  then have a: "userAvgRating (process_reviews utc sample_reviews ! 0) = Some (15 / 4)"
    by (simp only: facts(4,5))
  from inst facts(1,2,3)
  have "userAvgRating (process_reviews utc sample_reviews ! 0)
          = userAvgRating (process_reviews utc sample_reviews ! 11)"
    by blast
  with a have b: "userAvgRating (process_reviews utc sample_reviews ! 11) = Some (15 / 4)"
    by simp
  from inst run
  have "(\<forall>row \<in> set (fst (projr sample_run)).
               userAvgRating (of_review row)
                 = mean_rating sample_reviews (gPlusUserId (of_review row)))
          \<and> (\<forall>s \<in> set (snd (projr sample_run)).
               s_userAvgRating s = mean_rating sample_reviews (s_gPlusUserId s))"
    by blast
  then have c: "list_all (\<lambda>row. userAvgRating (of_review row)
                        = mean_rating sample_reviews (gPlusUserId (of_review row)))
        (fst (projr sample_run))"
    and d: "list_all (\<lambda>s. s_userAvgRating s = mean_rating sample_reviews (s_gPlusUserId s))
        (snd (projr sample_run))"
    by (simp_all add: list_all_iff)
  show ?thesis using facts(1,2,3,5,6) a b c d by blast
qed

section \<open>Properties of the warehouse sync\<close>

lemma try_execute_executed: "executed (try_execute drv q s) = executed s @ [q]"
  by (simp add: try_execute_def print_def split: prod.splits option.splits)

lemma try_execute_printed:
  "printed (try_execute drv q s)
     = printed s @ (case raised drv q (db s) of None \<Rightarrow> [] | Some err \<Rightarrow> [err])"
  by (auto simp: try_execute_def raised_def print_def split: prod.splits option.splits)

lemma try_execute_db:
  "db s = db t \<Longrightarrow> db (try_execute drv q s) = db (try_execute drv q t)"
  by (simp add: try_execute_def print_def split: prod.splits option.splits)

lemma same_conn_try:
  "same_conn s t \<Longrightarrow> same_conn (try_execute drv q s) (try_execute drv q t)"
  unfolding same_conn_def
  using try_execute_db[of s t drv q]
  by (auto simp: try_execute_executed try_execute_printed)

lemma same_conn_print: "same_conn s t \<Longrightarrow> same_conn s (print line t)"
  by (auto simp: same_conn_def print_def)

lemma same_conn_refl: "same_conn s s"
  by (simp add: same_conn_def)

lemma for_queries_append:
  "for_queries drv (qs @ qs') s = for_queries drv qs' (for_queries drv qs s)"
  by (induction qs arbitrary: s) simp_all

lemma for_queries_executed: "executed (for_queries drv qs s) = executed s @ qs"
  by (induction qs arbitrary: s) (simp_all add: try_execute_executed)

lemma for_queries_printed_mono: "set (printed s) \<subseteq> set (printed (for_queries drv qs s))"
proof (induction qs arbitrary: s)
  case Nil
  show ?case by simp
next
  case (Cons q qs)
  have "set (printed s) \<subseteq> set (printed (try_execute drv q s))"
    by (simp add: try_execute_printed)
  with Cons[of "try_execute drv q s"] show ?case by auto
qed

lemma for_queries_logged:
  assumes "raised drv q (db (for_queries drv qs s)) = Some err"
  shows "err \<in> set (printed (for_queries drv (qs @ q # qs') s))"
proof -
  let ?s = "for_queries drv qs s"
  have "err \<in> set (printed (try_execute drv q ?s))"
    using assms by (simp add: try_execute_printed)
  with for_queries_printed_mono[of "try_execute drv q ?s" drv qs']
  show ?thesis by (auto simp: for_queries_append)
qed

lemma load_staging_table_same_conn:
  "same_conn (for_queries drv (staging_queries s3_bucket category_param arn) s)
             (load_staging_table drv s3_bucket category_param arn s)"
  unfolding staging_queries_def load_staging_table_def Let_def for_queries.simps
  by (intro same_conn_try same_conn_print same_conn_refl)

lemma load_final_tables_for_queries:
  "load_final_tables drv s
     = for_queries drv (drop_table_queries @ create_table_queries @ insert_table_queries) s"
  by (simp add: load_final_tables_def for_queries_append)

text \<open>
  Claim C9. Whatever the driver does, \<open>load_staging_table\<close> hands its four statements
  (drop, create, copy, filter) to the driver in order, and \<open>load_final_tables\<close> its twelve
  (drop-all, create-all, insert-all): a statement that fails stops nothing after it. And
  the error of every statement that fails, at the connection state the statements before
  it have left, is among the printed lines.
\<close>

theorem log_and_continue:
  "executed (load_staging_table drv s3_bucket category_param arn s)
     = executed s @ staging_queries s3_bucket category_param arn
   \<and> executed (load_final_tables drv s)
       = executed s @ drop_table_queries @ create_table_queries @ insert_table_queries
   \<and> (staging_queries s3_bucket category_param arn = qs @ q # qs'
        \<and> raised drv q (db (for_queries drv qs s)) = Some err
        \<longrightarrow> err \<in> set (printed (load_staging_table drv s3_bucket category_param arn s)))
   \<and> (drop_table_queries @ create_table_queries @ insert_table_queries = qs @ q # qs'
        \<and> raised drv q (db (for_queries drv qs s)) = Some err
        \<longrightarrow> err \<in> set (printed (load_final_tables drv s)))"
proof -
  note sc = load_staging_table_same_conn[of drv s3_bucket category_param arn s]
  have 1: "executed (load_staging_table drv s3_bucket category_param arn s)
     = executed s @ staging_queries s3_bucket category_param arn"
    using sc by (simp add: same_conn_def for_queries_executed)
  have 2: "executed (load_final_tables drv s)
       = executed s @ drop_table_queries @ create_table_queries @ insert_table_queries"
    by (simp add: load_final_tables_for_queries for_queries_executed)
  have 3: "err \<in> set (printed (load_staging_table drv s3_bucket category_param arn s))"
    if "staging_queries s3_bucket category_param arn = qs @ q # qs'"
       "raised drv q (db (for_queries drv qs s)) = Some err"
    using for_queries_logged[OF that(2), of qs'] sc that(1) by (auto simp: same_conn_def)
  have 4: "err \<in> set (printed (load_final_tables drv s))"
    if "drop_table_queries @ create_table_queries @ insert_table_queries = qs @ q # qs'"
       "raised drv q (db (for_queries drv qs s)) = Some err"
    using for_queries_logged[OF that(2), of qs'] that(1)
    by (simp add: load_final_tables_for_queries)
  show ?thesis using 1 2 3 4 by blast
qed

theorem log_and_continue_witness:
  "executed (load_staging_table refusing_driver ''s3://b'' ''Restaurant'' ''arn'' (fresh ()))
     = [Drop_table ''staging'', Create_table ''staging'',
        Copy_staging ''s3://b/temp_lake'' ''arn'', Filter_staging ''Restaurant'']
   \<and> ''relation staging already exists''
       \<in> set (printed (load_staging_table refusing_driver ''s3://b'' ''Restaurant'' ''arn'' (fresh ())))
   \<and> executed (load_final_tables refusing_driver (fresh ()))
       = [Drop_table ''reviews'', Drop_table ''users'', Drop_table ''places'',
          Drop_table ''population'', Create_table ''users'', Create_table ''places'',
          Create_table ''population'', Create_table ''reviews'', Insert_into ''users'',
          Insert_into ''places'', Insert_into ''population'', Insert_into ''reviews'']
   \<and> ''relation users already exists'' \<in> set (printed (load_final_tables refusing_driver (fresh ())))"
proof -
  have a: "staging_queries ''s3://b'' ''Restaurant'' ''arn''
             = [staging_table_drop] @ staging_table_create
                 # [staging_table_copy (''s3://b'' @ ''/temp_lake'') ''arn'',
                    staging_table_filter ''Restaurant'']"
    by (simp add: staging_queries_def)
  have b: "raised refusing_driver staging_table_create
             (db (for_queries refusing_driver [staging_table_drop] (fresh ())))
             = Some ''relation staging already exists''"
    by (simp add: raised_def refusing_driver_def staging_table_create_def)
  have c: "drop_table_queries @ create_table_queries @ insert_table_queries
             = drop_table_queries @ users_table_create
                 # ([places_table_create, population_table_create, reviews_table_create]
                    @ insert_table_queries)"
    by (simp add: create_table_queries_def)
  have d: "raised refusing_driver users_table_create
             (db (for_queries refusing_driver drop_table_queries (fresh ())))
             = Some ''relation users already exists''"
    by (simp add: raised_def refusing_driver_def users_table_create_def)
  have e: "executed (fresh ()) = []"
    by (simp add: fresh_def)
  note i1 = log_and_continue [of refusing_driver "''s3://b''" "''Restaurant''" "''arn''" "fresh ()"
      "[staging_table_drop]" staging_table_create
      "[staging_table_copy (''s3://b'' @ ''/temp_lake'') ''arn'', staging_table_filter ''Restaurant'']"
      "''relation staging already exists''"]
  note i2 = log_and_continue [of refusing_driver "''s3://b''" "''Restaurant''" "''arn''" "fresh ()"
      drop_table_queries users_table_create
      "[places_table_create, population_table_create, reviews_table_create] @ insert_table_queries"
      "''relation users already exists''"]
  have "''relation staging already exists''
       \<in> set (printed (load_staging_table refusing_driver ''s3://b'' ''Restaurant'' ''arn'' (fresh ())))"
    using i1 a b by blast
  moreover have "''relation users already exists''
       \<in> set (printed (load_final_tables refusing_driver (fresh ())))"
    using i2 c d by blast
  moreover have "executed (load_staging_table refusing_driver ''s3://b'' ''Restaurant'' ''arn'' (fresh ()))
     = [Drop_table ''staging'', Create_table ''staging'',
        Copy_staging ''s3://b/temp_lake'' ''arn'', Filter_staging ''Restaurant'']"
    using i1 e
    by (simp add: staging_queries_def staging_table_drop_def staging_table_create_def
          staging_table_copy_def staging_table_filter_def)
  moreover have "executed (load_final_tables refusing_driver (fresh ()))
       = [Drop_table ''reviews'', Drop_table ''users'', Drop_table ''places'',
          Drop_table ''population'', Create_table ''users'', Create_table ''places'',
          Create_table ''population'', Create_table ''reviews'', Insert_into ''users'',
          Insert_into ''places'', Insert_into ''population'', Insert_into ''reviews'']"
    using i1 e
    by (simp add: drop_table_queries_def create_table_queries_def insert_table_queries_def
          reviews_table_drop_def users_table_drop_def places_table_drop_def
          population_table_drop_def users_table_create_def places_table_create_def
          population_table_create_def reviews_table_create_def users_table_insert_def
          places_table_insert_def population_table_insert_def reviews_table_insert_def)
  ultimately show ?thesis by blast
qed


lemma check_data_quality_one_row:
  assumes "\<forall>d t d'. execute drv d (sql_check_filled t) = (None, d') \<longrightarrow> fetchall drv d' \<noteq> []"
  shows "check_data_quality drv ts s \<noteq> Inl (ValueError m)"
proof (induction ts arbitrary: s)
  case Nil
  show ?case by simp
next
  case (Cons t ts)
  obtain e d where ex: "execute drv (db s) (sql_check_filled t) = (e, d)"
    by (cases "execute drv (db s) (sql_check_filled t)")
  show ?case
  proof (cases e)
    case None
    with ex assms have "fetchall drv d \<noteq> []" by blast
    with ex None Cons show ?thesis by simp
  next
    case (Some err)
    with ex show ?thesis by simp
  qed
qed

lemma warehouse_fill_check_never_fails:
  "check_data_quality warehouse_driver ts s \<noteq> Inl (ValueError m)"
  by (rule check_data_quality_one_row)
     (auto simp: warehouse_driver_def sql_check_filled_def split: option.splits)

text \<open>
  Claim C1, at a warehouse whose four tables exist and hold no row: each count query
  answers the one row \<open>(0)\<close>, \<open>len(rows)\<close> is 1, and the check reports every table as
  filled. No \<open>ValueError\<close> is raised.
\<close>

theorem fill_check_passes_on_empty_tables:
  "check_data_quality warehouse_driver tables (fresh empty_tables)
     = Inr \<lparr> db = empty_tables\<lparr>result := [[0]]\<rparr>,
             executed = [Select_count ''reviews'', Select_count ''places'',
                         Select_count ''population'', Select_count ''users''],
             printed = [''Data quality check passed, reviews is filled'',
                        ''Data quality check passed, places is filled'',
                        ''Data quality check passed, population is filled'',
                        ''Data quality check passed, users is filled''] \<rparr>"
  by (simp add: tables_def fresh_def empty_tables_def warehouse_driver_def sql_check_filled_def
        print_def)

end
